theory Spec2Isabelle
  imports Complex_Main "HOL-Library.Multiset"
begin

section \<open>JavaScript built-ins used by \<^verbatim>\<open>static/script.js\<close>\<close>







text \<open>\<^verbatim>\<open>s.replace(/"/g, '""')\<close>: every double quote (character 0x22) is written twice.\<close>

fun replace_dquotes :: "string \<Rightarrow> string" where
  "replace_dquotes [] = []"
| "replace_dquotes (c # cs) =
     (if c = CHR 0x22 then CHR 0x22 # CHR 0x22 # replace_dquotes cs
      else c # replace_dquotes cs)"

text \<open>Decimal notation of a number that is a non-negative integer, as \<^verbatim>\<open>String(n)\<close> prints it.\<close>

definition digit_char :: "nat \<Rightarrow> char" where
  "digit_char d = char_of (48 + d)"

fun decimal :: "nat \<Rightarrow> string" where
  "decimal n = (if n < 10 then [digit_char n] else decimal (n div 10) @ [digit_char (n mod 10)])"

declare decimal.simps [simp del]

definition number_to_string :: "int \<Rightarrow> string" where
  "number_to_string i = (if i < 0 then ''-'' @ decimal (nat (- i)) else decimal (nat i))"

text \<open>
  Numbers are IEEE doubles; a double is the rational number it stands for. \<open>to_double x\<close>
  is the double nearest to \<open>x\<close>, of two nearest ones the one with the even significand:
  the result of an arithmetic operation whose exact value is \<open>x\<close>. The unit in the last
  place is \<open>2 ^ (e - 52)\<close> where \<open>2 ^ e \<le> \<bar>x\<bar> < 2 ^ (e + 1)\<close>, and \<open>e\<close> is no less than -1022.
  \<open>binade\<close> finds \<open>e\<close> by halving or doubling, in fewer steps than it is given for every
  number of a double's magnitude. Overflow to infinity, from \<open>2 ^ 1024\<close> on, is left out.
\<close>

definition pow2 :: "int \<Rightarrow> rat" where
  "pow2 k = (if 0 \<le> k then 2 ^ nat k else 1 / 2 ^ nat (- k))"

fun binade :: "nat \<Rightarrow> rat \<Rightarrow> int" where
  "binade 0 x = 0"
| "binade (Suc fuel) x =
     (if 2 \<le> x then binade fuel (x / 2) + 1
      else if x < 1 then binade fuel (x * 2) - 1
      else 0)"

definition round_half_even :: "rat \<Rightarrow> int" where
  "round_half_even x =
     (let f = \<lfloor>x\<rfloor>; d = x - of_int f
      in if d < 1 / 2 then f else if 1 / 2 < d then f + 1 else if even f then f else f + 1)"

definition to_double :: "rat \<Rightarrow> rat" where
  "to_double x =
     (if x = 0 then 0
      else let e = max (binade 2200 \<bar>x\<bar>) (- 1022); u = pow2 (e - 52)
           in of_int (round_half_even (x / u)) * u)"

text \<open>
  \<^verbatim>\<open>x.toFixed(1)\<close>: the integer \<open>n\<close> with \<open>n / 10\<close> nearest to the exact value of \<open>x\<close> (the
  larger one on a tie), printed with one digit after the point.
\<close>

definition fixed1 :: "nat \<Rightarrow> string" where
  "fixed1 n = decimal (n div 10) @ ''.'' @ decimal (n mod 10)"

definition toFixed1 :: "rat \<Rightarrow> string" where
  "toFixed1 x =
     (if x < 0 then ''-'' @ fixed1 (nat \<lfloor>- x * 10 + 1 / 2\<rfloor>)
      else fixed1 (nat \<lfloor>x * 10 + 1 / 2\<rfloor>))"

text \<open>
  Values that end up in an array passed to \<^verbatim>\<open>join\<close> or in a template literal:
  \<^verbatim>\<open>join\<close> prints \<^verbatim>\<open>undefined\<close> as the empty string, a template literal prints it as the
  word.
\<close>

datatype js_value = Undefined | Str string | Num nat

fun join_item :: "js_value \<Rightarrow> string" where
  "join_item Undefined = []"
| "join_item (Str s) = s"
| "join_item (Num n) = decimal n"

fun template_item :: "js_value \<Rightarrow> string" where
  "template_item Undefined = ''undefined''"
| "template_item (Str s) = s"
| "template_item (Num n) = decimal n"

fun join :: "string \<Rightarrow> string list \<Rightarrow> string" where
  "join sep [] = []"
| "join sep [x] = x"
| "join sep (x # y # zs) = x @ sep @ join sep (y # zs)"

definition of_optional :: "string option \<Rightarrow> js_value" where
  "of_optional v = (case v of None \<Rightarrow> Undefined | Some s \<Rightarrow> Str s)"


section \<open>Data model\<close>

text \<open>
  Field names carry a prefix, since image entries and history items share theirs in the
  script (\<^verbatim>\<open>id\<close>, \<^verbatim>\<open>name\<close>, \<^verbatim>\<open>status\<close>, \<^verbatim>\<open>confidence\<close>, \<^verbatim>\<open>size\<close>). A status is the
  string the script stores. \<^verbatim>\<open>confidence\<close> and \<^verbatim>\<open>analyzedAt\<close> are undefined until an analysis
  has completed.
\<close>

record File =
  file_name :: string
  file_type :: string
  file_size :: nat

record settings =
  theme :: string
  notifications :: bool
  maxFileSize :: int
  autoAnalyze :: bool

record imageData =
  img_id :: string
  img_name :: string
  img_url :: string
  img_status :: string
  img_uploadTime :: string
  img_size :: nat
  img_confidence :: "string option"
  img_analyzedAt :: "string option"

record historyItem =
  h_id :: string
  h_name :: string
  h_status :: string
  h_confidence :: "string option"
  h_date :: "string option"
  h_size :: nat

record user =
  username :: string
  email :: string
  role :: string

text \<open>
  A settings document read back from the store may lack fields; the spread
  \<^verbatim>\<open>{ ...this.settings, ...parsed }\<close> overrides the fields that are there.
\<close>

record settings_patch =
  p_theme :: "string option"
  p_notifications :: "bool option"
  p_maxFileSize :: "int option"
  p_autoAnalyze :: "bool option"

text \<open>
  \<^verbatim>\<open>localStorage\<close> holds strings. A stored string is represented by what \<^verbatim>\<open>JSON.parse\<close>
  makes of it: \<open>Garbled txt\<close> is a text \<open>txt\<close> that \<^verbatim>\<open>JSON.parse\<close> rejects with a
  \<^verbatim>\<open>SyntaxError\<close> (the empty string is one), \<open>Json v\<close> is the text \<^verbatim>\<open>JSON.stringify\<close>
  writes for \<open>v\<close>, which parses back to \<open>v\<close>.
\<close>

datatype json_value =
  UserJSON user
| SettingsJSON settings_patch
| HistoryJSON "historyItem list"

datatype stored = Garbled string | Json json_value

type_synonym addr = nat

type_synonym toast = "string \<times> string"

text \<open>
  The application object. \<open>uploadedImages\<close> is the \<^verbatim>\<open>Map\<close> in \<^verbatim>\<open>this.state\<close>; its values are
  references to image objects, which live in \<open>objects\<close>, so that a reference held across
  an \<^verbatim>\<open>await\<close> still reaches its object after the key has been deleted from the map.
  Of the browser, the state keeps the store, whether \<^verbatim>\<open>setItem\<close> will throw for lack of
  quota, the ids of the gallery elements in the document, the calls made to
  \<^verbatim>\<open>showToast\<close> (message and type, oldest first) and the console's lines.
\<close>

record app =
  currentUser :: "json_value option"
  analysisHistory :: "historyItem list"
  settings :: settings
  uploadedImages :: "string \<rightharpoonup> addr"
  objects :: "addr \<rightharpoonup> imageData"
  localStorage :: "string \<rightharpoonup> stored"
  quota_exceeded :: bool
  gallery :: "string set"
  toasts :: "toast list"
  console :: "string list"

text \<open>The constructor's field initialisers, over a given store and document.\<close>

definition default_settings :: settings where
  "default_settings =
     \<lparr>theme = ''light'', notifications = True, maxFileSize = 10, autoAnalyze = False\<rparr>"

definition constructor :: "(string \<rightharpoonup> stored) \<Rightarrow> app" where
  "constructor store =
     \<lparr>currentUser = None, analysisHistory = [], settings = default_settings,
      uploadedImages = Map.empty, objects = Map.empty, localStorage = store,
      quota_exceeded = False, gallery = {}, toasts = [], console = []\<rparr>"

definition showToast :: "app \<Rightarrow> string \<Rightarrow> string \<Rightarrow> app" where
  "showToast st message type = st\<lparr>toasts := toasts st @ [(message, type)]\<rparr>"


section \<open>Validation of uploaded files\<close>

definition allowedTypes :: "string list" where
  "allowedTypes = [''image/jpeg'', ''image/jpg'', ''image/png'', ''image/gif'', ''image/webp'']"

text \<open>The callback of \<^verbatim>\<open>files.forEach\<close> in \<^verbatim>\<open>validateFiles\<close>, on the list built so far.\<close>

definition validate_file :: "int \<Rightarrow> File \<Rightarrow> File list \<times> app \<Rightarrow> File list \<times> app" where
  "validate_file maxSize f acc =
     (case acc of (validFiles, st) \<Rightarrow>
        if file_type f \<notin> set allowedTypes then
          (validFiles, showToast st (file_name f @ '': Unsupported file type'') ''error'')
        else if int (file_size f) > maxSize then
          (validFiles,
           showToast st
             (file_name f @ '': File too large (max ''
                @ number_to_string (maxFileSize (settings st)) @ ''MB)'')
             ''error'')
        else (validFiles @ [f], st))"

definition validateFiles :: "app \<Rightarrow> File list \<Rightarrow> File list \<times> app" where
  "validateFiles st files =
     (let maxSize = maxFileSize (settings st) * 1024 * 1024
      in fold (validate_file maxSize) files ([], st))"


section \<open>Persistence\<close>

text \<open>
  \<^verbatim>\<open>loadUserData\<close>. A missing record and the empty string are falsy and skip the parse. When
  \<^verbatim>\<open>JSON.parse\<close> throws, the handler warns and removes the record.
\<close>

definition loadUserData :: "app \<Rightarrow> app" where
  "loadUserData st =
     (case localStorage st ''currentUser'' of
        None \<Rightarrow> st
      | Some (Garbled txt) \<Rightarrow>
          if txt = [] then st
          else st\<lparr>console := console st @ [''Failed to load user data:''],
                  localStorage := (localStorage st)(''currentUser'' := None)\<rparr>
      | Some (Json v) \<Rightarrow> st\<lparr>currentUser := Some v\<rparr>)"

text \<open>
  The spread in \<^verbatim>\<open>loadSettings\<close>. A parsed history (an array) contributes index keys only,
  and a parsed user record its own keys; neither touches the four settings fields.
\<close>

definition spread_settings :: "settings \<Rightarrow> json_value \<Rightarrow> settings" where
  "spread_settings s v =
     (case v of
        SettingsJSON p \<Rightarrow>
          \<lparr>theme = (case p_theme p of None \<Rightarrow> theme s | Some x \<Rightarrow> x),
           notifications = (case p_notifications p of None \<Rightarrow> notifications s | Some x \<Rightarrow> x),
           maxFileSize = (case p_maxFileSize p of None \<Rightarrow> maxFileSize s | Some x \<Rightarrow> x),
           autoAnalyze = (case p_autoAnalyze p of None \<Rightarrow> autoAnalyze s | Some x \<Rightarrow> x)\<rparr>
      | UserJSON u \<Rightarrow> s
      | HistoryJSON h \<Rightarrow> s)"

text \<open>\<^verbatim>\<open>loadSettings\<close>. Its handler only warns.\<close>

definition loadSettings :: "app \<Rightarrow> app" where
  "loadSettings st =
     (case localStorage st ''billboardAI_settings'' of
        None \<Rightarrow> st
      | Some (Garbled txt) \<Rightarrow>
          if txt = [] then st
          else st\<lparr>console := console st @ [''Failed to load settings:'']\<rparr>
      | Some (Json v) \<Rightarrow> st\<lparr>settings := spread_settings (settings st) v\<rparr>)"

text \<open>
  \<^verbatim>\<open>saveAnalysisHistory\<close>: \<^verbatim>\<open>setItem\<close> either stores the serialised history or throws, and the
  handler logs the failure.
\<close>

definition saveAnalysisHistory :: "app \<Rightarrow> app" where
  "saveAnalysisHistory st =
     (if quota_exceeded st
      then st\<lparr>console := console st @ [''Failed to save analysis history:'']\<rparr>
      else st\<lparr>localStorage :=
                (localStorage st)(''billboardAI_history'' \<mapsto> Json (HistoryJSON (analysisHistory st)))\<rparr>)"


section \<open>Analysis of one image\<close>

text \<open>
  \<^verbatim>\<open>addToHistory\<close>: a snapshot of the image goes to the front of the history
  (\<^verbatim>\<open>unshift\<close>), and the history is saved. \<^verbatim>\<open>updateHistory\<close> only redraws the table.
\<close>

definition addToHistory :: "app \<Rightarrow> imageData \<Rightarrow> app" where
  "addToHistory st imageData =
     (let historyItem =
            \<lparr>h_id = img_id imageData, h_name = img_name imageData,
             h_status = img_status imageData, h_confidence = img_confidence imageData,
             h_date = img_analyzedAt imageData, h_size = img_size imageData\<rparr>
      in saveAnalysisHistory (st\<lparr>analysisHistory := historyItem # analysisHistory st\<rparr>))"

text \<open>\<^verbatim>\<open>this.state.uploadedImages.get(imageId)\<close>: the reference and the object it points to.\<close>

definition get_image :: "app \<Rightarrow> string \<Rightarrow> (addr \<times> imageData) option" where
  "get_image st imageId =
     (case uploadedImages st imageId of
        None \<Rightarrow> None
      | Some a \<Rightarrow> (case objects st a of None \<Rightarrow> None | Some imageData \<Rightarrow> Some (a, imageData)))"

text \<open>
  \<^verbatim>\<open>analyzeImage\<close> is asynchronous. \<open>analyzeImage_begin\<close> is the part that runs at the call, up
  to \<^verbatim>\<open>await this.performAnalysis(imageData)\<close>: it either returns at one of the two guards,
  or sets the status to \<^verbatim>\<open>analyzing\<close> and suspends, holding the reference to the image.
  Changes to the gallery element (classes, button, status badge) are not part of the state.
\<close>

datatype analyze_call = Returned app | Awaiting app addr

definition analyzeImage_begin :: "app \<Rightarrow> string \<Rightarrow> analyze_call" where
  "analyzeImage_begin st imageId =
     (case get_image st imageId of
        None \<Rightarrow> Returned st
      | Some (a, imageData) \<Rightarrow>
          if img_status imageData = ''analyzing'' then Returned st
          else if imageId \<notin> gallery st then Returned st
          else Awaiting (st\<lparr>objects := (objects st)(a \<mapsto> imageData\<lparr>img_status := ''analyzing''\<rparr>)\<rparr>) a)"

text \<open>
  How the awaited call settles: \<open>Fulfilled r1 r2 now\<close> when its promise resolves, with the two
  values that \<^verbatim>\<open>Math.random()\<close> then returns (each at least 0 and below 1) and the time stamp
  \<^verbatim>\<open>new Date().toISOString()\<close>; \<open>Rejected\<close> when it throws, which takes the \<^verbatim>\<open>catch\<close>
  branch. (\<^verbatim>\<open>performAnalysis\<close> as written only sleeps.) The confidence is the value of
  \<^verbatim>\<open>Math.random() * 20 + 80\<close>, each of the two operations rounded to a double, printed by
  \<^verbatim>\<open>toFixed(1)\<close>.
\<close>

datatype settled = Fulfilled rat rat string | Rejected

text \<open>
  The part of \<^verbatim>\<open>analyzeImage\<close> after the \<^verbatim>\<open>await\<close>, on the state as it is by then. The
  reference it holds always reaches an object; the first case is there for totality.
  \<^verbatim>\<open>updateStats\<close> at the end only redraws the counters.
\<close>

definition analyzeImage_resume :: "app \<Rightarrow> addr \<Rightarrow> settled \<Rightarrow> app" where
  "analyzeImage_resume st a outcome =
     (case objects st a of
        None \<Rightarrow> st
      | Some imageData \<Rightarrow>
         (case outcome of
            Fulfilled r1 r2 now \<Rightarrow>
              let result = (if r1 > 1 / 2 then ''authorized'' else ''unauthorized'');
                  confidence = toFixed1 (to_double (to_double (r2 * 20) + 80));
                  imageData' = imageData\<lparr>img_status := result, img_confidence := Some confidence,
                                 img_analyzedAt := Some now\<rparr>;
                  st1 = addToHistory (st\<lparr>objects := (objects st)(a \<mapsto> imageData')\<rparr>) imageData'
              in showToast st1
                   (''Analysis complete: '' @ result @ '' ('' @ confidence @ ''% confidence)'')
                   ''success''
          | Rejected \<Rightarrow>
              showToast
                (st\<lparr>console := console st @ [''Analysis failed:''],
                    objects := (objects st)(a \<mapsto> imageData\<lparr>img_status := ''error''\<rparr>)\<rparr>)
                ''Analysis failed. Please try again.'' ''error''))"

text \<open>A whole call of \<^verbatim>\<open>analyzeImage\<close> during which nothing else runs.\<close>

definition analyzeImage :: "app \<Rightarrow> string \<Rightarrow> settled \<Rightarrow> app" where
  "analyzeImage st imageId outcome =
     (case analyzeImage_begin st imageId of
        Returned st' \<Rightarrow> st'
      | Awaiting st' a \<Rightarrow> analyzeImage_resume st' a outcome)"

text \<open>
  \<^verbatim>\<open>analyzeAllPendingImages\<close> builds the list of the pending images once, before its loop,
  from the values of the \<^verbatim>\<open>Map\<close>, whose keys in insertion order are \<open>keys\<close>. The loop then
  calls \<^verbatim>\<open>analyzeImage\<close> with the id of each image of that list in turn, awaiting each call
  and a pause of half a second; other handlers run during these waits.
\<close>

definition pendingImages :: "app \<Rightarrow> string list \<Rightarrow> imageData list" where
  "pendingImages st keys =
     filter (\<lambda>img. img_status img = ''pending'') (map snd (List.map_filter (get_image st) keys))"

text \<open>The state a call of \<^verbatim>\<open>analyzeImage\<close> leaves when it returns or suspends.\<close>

fun state_after :: "analyze_call \<Rightarrow> app" where
  "state_after (Returned st) = st"
| "state_after (Awaiting st a) = st"


section \<open>Statistics, search and export\<close>

text \<open>The three numbers \<^verbatim>\<open>updateStats\<close> computes and hands to the counters of the page.\<close>

record stats =
  total :: nat
  authorizedCount :: nat
  unauthorizedCount :: nat

definition updateStats :: "historyItem list \<Rightarrow> stats" where
  "updateStats history =
     \<lparr>total = length history,
      authorizedCount = length (filter (\<lambda>item. h_status item = ''authorized'') history),
      unauthorizedCount = length (filter (\<lambda>item. h_status item = ''unauthorized'') history)\<rparr>"


text \<open>\<^verbatim>\<open>exportToCSV\<close>: the text put into the downloaded file, if any, and the toast.\<close>

definition csv_headers :: "string list" where
  "csv_headers = [''Image Name'', ''Status'', ''Confidence (%)'', ''Date'', ''File Size (bytes)'']"

definition csv_row :: "historyItem \<Rightarrow> string" where
  "csv_row item =
     join '',''
       (map join_item
          [Str ([CHR 0x22] @ replace_dquotes (h_name item) @ [CHR 0x22]),
           Str (h_status item),
           of_optional (h_confidence item),
           Str ([CHR 0x22] @ template_item (of_optional (h_date item)) @ [CHR 0x22]),
           Num (h_size item)])"

definition csvContent :: "historyItem list \<Rightarrow> string" where
  "csvContent history = join [CHR 0x0A] (join '','' csv_headers # map csv_row history)"

definition exportToCSV :: "app \<Rightarrow> app \<times> string option" where
  "exportToCSV st =
     (if length (analysisHistory st) = 0 then (showToast st ''No data to export'' ''warning'', None)
      else (showToast st ''History exported successfully!'' ''success'',
            Some (csvContent (analysisHistory st))))"


section \<open>The specification's notions\<close>






text \<open>
  The specification's reading of the name field of the export: the name between double
  quotes, each double quote inside it written twice.
\<close>

definition quoted_with_doubled_quotes :: "string \<Rightarrow> string" where
  "quoted_with_doubled_quotes s =
     [CHR 0x22]
       @ concat (map (\<lambda>c. if c = CHR 0x22 then [CHR 0x22, CHR 0x22] else [c]) s)
       @ [CHR 0x22]"

text \<open>
  The number a confidence string stands for: decimal digits, a point and one more digit,
  read as a percentage. Any other string stands for none.
\<close>

definition digit_value :: "char \<Rightarrow> nat option" where
  "digit_value c = map_of (zip ''0123456789'' [0 ..< 10]) c"

fun digits_value :: "nat \<Rightarrow> string \<Rightarrow> nat option" where
  "digits_value acc [] = Some acc"
| "digits_value acc (c # cs) =
     (case digit_value c of None \<Rightarrow> None | Some d \<Rightarrow> digits_value (10 * acc + d) cs)"

definition percentage_value :: "string \<Rightarrow> rat option" where
  "percentage_value s =
     (case (takeWhile (\<lambda>c. c \<noteq> CHR ''.'') s, dropWhile (\<lambda>c. c \<noteq> CHR ''.'') s) of
        (whole, [point, tenth]) \<Rightarrow>
          (if whole = [] then None
           else case (digits_value 0 whole, digit_value tenth) of
                  (Some w, Some t) \<Rightarrow> Some (of_nat w + of_nat t / 10)
                | _ \<Rightarrow> None)
      | _ \<Rightarrow> None)"


section \<open>Auxiliary definitions and sample data\<close>

text \<open>The toasts one file causes in \<^verbatim>\<open>validateFiles\<close>, for the limit in megabytes and in bytes.\<close>

definition rejection :: "int \<Rightarrow> int \<Rightarrow> File \<Rightarrow> toast list" where
  "rejection maxMB maxSize f =
     (if file_type f \<notin> set allowedTypes then [(file_name f @ '': Unsupported file type'', ''error'')]
      else if int (file_size f) > maxSize then
        [(file_name f @ '': File too large (max '' @ number_to_string maxMB @ ''MB)'', ''error'')]
      else [])"

definition sample_png :: File where
  "sample_png = \<lparr>file_name = ''board.png'', file_type = ''image/png'', file_size = 2097152\<rparr>"

definition sample_pdf :: File where
  "sample_pdf = \<lparr>file_name = ''permit.pdf'', file_type = ''application/pdf'', file_size = 4096\<rparr>"

definition sample_jpeg_at_limit :: File where
  "sample_jpeg_at_limit = \<lparr>file_name = ''exact.jpg'', file_type = ''image/jpeg'', file_size = 10485760\<rparr>"

definition sample_jpeg_over_limit :: File where
  "sample_jpeg_over_limit = \<lparr>file_name = ''over.jpg'', file_type = ''image/jpeg'', file_size = 10485761\<rparr>"

definition sample_item_sign :: historyItem where
  "sample_item_sign =
     \<lparr>h_id = ''img_1700000000000_k3j9x2a1b'',
      h_name = ''Ad '' @ [CHR 0x22] @ ''Big'' @ [CHR 0x22] @ '' Sign.jpg'',
      h_status = ''authorized'', h_confidence = Some ''93.4'',
      h_date = Some ''2024-05-01T10:00:00.000Z'', h_size = 2048\<rparr>"

definition sample_item_wall :: historyItem where
  "sample_item_wall =
     \<lparr>h_id = ''img_1700000000500_q8w7e6r5t'', h_name = ''wall.png'',
      h_status = ''unauthorized'', h_confidence = Some ''81.0'',
      h_date = Some ''2024-05-01T10:00:06.000Z'', h_size = 512\<rparr>"

definition sample_item_roof :: historyItem where
  "sample_item_roof =
     \<lparr>h_id = ''img_1700000001000_z1x2c3v4b'', h_name = ''Roof BIGGER.gif'',
      h_status = ''authorized'', h_confidence = Some ''100.0'',
      h_date = Some ''2024-05-01T10:00:12.000Z'', h_size = 77\<rparr>"

definition sample_image :: imageData where
  "sample_image =
     \<lparr>img_id = ''img_1700000000000_k3j9x2a1b'', img_name = ''board.png'',
      img_url = ''data:image/png;base64,iVBORw0KGgo='', img_status = ''pending'',
      img_uploadTime = ''2024-05-01T09:59:00.000Z'', img_size = 2097152,
      img_confidence = None, img_analyzedAt = None\<rparr>"

text \<open>An application with one image in the map, with or without its gallery element.\<close>

definition sample_app :: "imageData \<Rightarrow> bool \<Rightarrow> app" where
  "sample_app imageData rendered =
     (constructor Map.empty)
       \<lparr>uploadedImages := [img_id imageData \<mapsto> 0], objects := [0 \<mapsto> imageData],
        gallery := (if rendered then {img_id imageData} else {})\<rparr>"

definition sample_history_app :: app where
  "sample_history_app = (constructor Map.empty)\<lparr>analysisHistory := [sample_item_sign]\<rparr>"

definition sample_corrupt_store :: "string \<rightharpoonup> stored" where
  "sample_corrupt_store = [''billboardAI_settings'' \<mapsto> Garbled ''{theme:'']"

definition sample_jpg :: File where
  "sample_jpg = \<lparr>file_name = ''sign.jpg'', file_type = ''image/jpg'', file_size = 2048\<rparr>"


definition sample_second_image :: imageData where
  "sample_second_image =
     \<lparr>img_id = ''img_1700000000002_m4n5b6v7c'', img_name = ''wall.png'',
      img_url = ''data:image/png;base64,iVBORw0KGgp='', img_status = ''pending'',
      img_uploadTime = ''2024-05-01T09:59:00.100Z'', img_size = 512,
      img_confidence = None, img_analyzedAt = None\<rparr>"

text \<open>
  Two pending images with their gallery elements, uploaded with automatic analysis
  switched on, so that \<^verbatim>\<open>processFiles\<close> starts \<^verbatim>\<open>analyzeAllPendingImages\<close>.
\<close>

definition sample_batch_app :: app where
  "sample_batch_app =
     (constructor Map.empty)
       \<lparr>settings := default_settings\<lparr>autoAnalyze := True\<rparr>,
        uploadedImages := [''img_1700000000000_k3j9x2a1b'' \<mapsto> 0, ''img_1700000000002_m4n5b6v7c'' \<mapsto> 1],
        objects := [0 \<mapsto> sample_image, 1 \<mapsto> sample_second_image],
        gallery := {''img_1700000000000_k3j9x2a1b'', ''img_1700000000002_m4n5b6v7c''}\<rparr>"

text \<open>
  A run on that application. The batch driver has taken its list, both images, and calls
  \<^verbatim>\<open>analyzeImage\<close> on the first, which suspends. While it waits, the user presses Analyze
  on the second image, whose call suspends too. The second analysis completes first, then
  the first. Half a second later the driver goes on to the second image of its list.
\<close>

definition batch_first_started :: app where
  "batch_first_started =
     state_after (analyzeImage_begin sample_batch_app ''img_1700000000000_k3j9x2a1b'')"

definition batch_second_clicked :: app where
  "batch_second_clicked =
     state_after (analyzeImage_begin batch_first_started ''img_1700000000002_m4n5b6v7c'')"

definition batch_second_done :: app where
  "batch_second_done =
     analyzeImage_resume batch_second_clicked 1
       (Fulfilled (3 / 4) (1 / 2) ''2024-05-01T10:00:03.000Z'')"

definition batch_first_done :: app where
  "batch_first_done =
     analyzeImage_resume batch_second_done 0
       (Fulfilled (1 / 4) (1 / 4) ''2024-05-01T10:00:05.000Z'')"

definition batch_second_again :: app where
  "batch_second_again =
     analyzeImage batch_first_done ''img_1700000000002_m4n5b6v7c''
       (Fulfilled (1 / 4) (3 / 4) ''2024-05-01T10:00:09.500Z'')"


section \<open>Auxiliary facts\<close>

lemmas sample_files = sample_png_def sample_pdf_def sample_jpeg_at_limit_def sample_jpeg_over_limit_def

lemmas sample_items = sample_item_sign_def sample_item_wall_def sample_item_roof_def

lemmas sample_apps = sample_app_def sample_image_def
  sample_history_app_def constructor_def default_settings_def

subsection \<open>Validation\<close>

lemma validate_file_step:
  "validate_file m f (acc, st) =
     (acc @ filter (\<lambda>f. file_type f \<in> set allowedTypes \<and> int (file_size f) \<le> m) [f],
      st\<lparr>toasts := toasts st @ rejection (maxFileSize (settings st)) m f\<rparr>)"
  by (simp add: validate_file_def showToast_def rejection_def)

lemma fold_validate_file:
  "fold (validate_file m) files (acc, st) =
     (acc @ filter (\<lambda>f. file_type f \<in> set allowedTypes \<and> int (file_size f) \<le> m) files,
      st\<lparr>toasts := toasts st @ concat (map (rejection (maxFileSize (settings st)) m) files)\<rparr>)"
proof (induction files arbitrary: acc st)
  case Nil
  then show ?case by simp
next
  case (Cons f fs)
  have "fold (validate_file m) (f # fs) (acc, st) =
        fold (validate_file m) fs (validate_file m f (acc, st))"
    by simp
  also have "\<dots> = fold (validate_file m) fs
       (acc @ filter (\<lambda>f. file_type f \<in> set allowedTypes \<and> int (file_size f) \<le> m) [f],
        st\<lparr>toasts := toasts st @ rejection (maxFileSize (settings st)) m f\<rparr>)"
    by (simp only: validate_file_step)
  also have "\<dots> = (acc @ filter (\<lambda>f. file_type f \<in> set allowedTypes \<and> int (file_size f) \<le> m) (f # fs),
      st\<lparr>toasts := toasts st @ concat (map (rejection (maxFileSize (settings st)) m) (f # fs))\<rparr>)"
    by (simp add: Cons.IH)
  finally show ?case .
qed

lemma validateFiles_eq:
  "validateFiles st files =
     (filter (\<lambda>f. file_type f \<in> set allowedTypes
                 \<and> int (file_size f) \<le> maxFileSize (settings st) * 1024 * 1024) files,
      st\<lparr>toasts := toasts st @
           concat (map (rejection (maxFileSize (settings st))
                          (maxFileSize (settings st) * 1024 * 1024)) files)\<rparr>)"
  by (simp add: validateFiles_def Let_def fold_validate_file)

lemma set_allowedTypes:
  "set allowedTypes = {''image/jpeg'', ''image/jpg'', ''image/png'', ''image/gif'', ''image/webp''}"
  by (simp add: allowedTypes_def)

lemma decimal_10: "decimal 10 = ''10''"
  by code_simp

subsection \<open>Strings\<close>















lemma replace_dquotes_concat:
  "replace_dquotes s = concat (map (\<lambda>c. if c = CHR 0x22 then [CHR 0x22, CHR 0x22] else [c]) s)"
  by (induction s) auto

lemma csv_row_eq:
  "csv_row item = [CHR 0x22] @ replace_dquotes (h_name item) @ [CHR 0x22] @ '','' @ h_status item @ '',''
     @ (case h_confidence item of None \<Rightarrow> [] | Some c \<Rightarrow> c) @ '','' @ [CHR 0x22] @ (case h_date item of None \<Rightarrow> ''undefined'' | Some d \<Rightarrow> d) @ [CHR 0x22] @ '','' @ decimal (h_size item)"
  by (simp add: csv_row_def of_optional_def split: option.splits)

lemma join_lines: "join [CHR 0x0A] (x # map f xs) = x @ concat (map (\<lambda>y. CHR 0x0A # f y) xs)"
  by (induction xs arbitrary: x) auto

lemma csvContent_eq:
  "csvContent history =
     ''Image Name,Status,Confidence (%),Date,File Size (bytes)''
       @ concat (map (\<lambda>item. CHR 0x0A # csv_row item) history)"
  by (simp add: csvContent_def csv_headers_def join_lines)

subsection \<open>Numbers\<close>

text \<open>
  Rounding to a double keeps a number between two doubles that bound it, so the value of
  \<^verbatim>\<open>Math.random() * 20 + 80\<close> lies between 80 and 100.
\<close>

lemma binade_less:
  "1 \<le> m \<Longrightarrow> x < 2 ^ m \<Longrightarrow> binade fuel x < int m"
proof (induction fuel arbitrary: x m)
  case 0
  then show ?case by simp
next
  case (Suc fuel)
  show ?case
  proof (cases "2 \<le> x")
    case True
    have m2: "2 \<le> m"
    proof (rule ccontr)
      assume "\<not> 2 \<le> m"
      with Suc.prems(1) have "m = 1" by simp
      with Suc.prems(2) True show False by simp
    qed
    then obtain m' where m': "m = Suc m'" "1 \<le> m'" by (cases m) auto
    have "x / 2 < 2 ^ m'" using Suc.prems(2) m'(1) by simp
    then have "binade fuel (x / 2) < int m'" using Suc.IH [OF m'(2)] by blast
    then show ?thesis using True m'(1) by simp
  next
    case False
    show ?thesis
    proof (cases "x < 1")
      case True
      have "(2::rat) ^ 1 \<le> 2 ^ m" using Suc.prems(1) by (intro power_increasing) simp_all
      then have "x * 2 < 2 ^ m" using True by simp
      then have "binade fuel (x * 2) < int m" using Suc.IH [OF Suc.prems(1)] by blast
      then show ?thesis using True False by simp
    next
      case False
      then show ?thesis using \<open>\<not> 2 \<le> x\<close> Suc.prems(1) by simp
    qed
  qed
qed

lemma round_half_even_between:
  assumes "of_int a \<le> y" and "y \<le> of_int b"
  shows "a \<le> round_half_even y \<and> round_half_even y \<le> b"
proof -
  have fa: "a \<le> \<lfloor>y\<rfloor>" using assms(1) by (simp add: le_floor_iff)
  have fb: "\<lfloor>y\<rfloor> \<le> b" using assms(2) by (simp add: floor_le_iff)
  show ?thesis
  proof (cases "y = of_int b")
    case True
    then have "round_half_even y = b" by (simp add: round_half_even_def)
    then show ?thesis using fa True by simp
  next
    case False
    then have "y < of_int b" using assms(2) by simp
    then have "\<lfloor>y\<rfloor> < b" by (simp add: floor_less_iff)
    then have "\<lfloor>y\<rfloor> + 1 \<le> b" by simp
    then show ?thesis using fa fb by (auto simp: round_half_even_def Let_def)
  qed
qed

lemma to_double_between:
  assumes lo: "of_int a / 2 ^ 46 \<le> x" and hi: "x \<le> of_int b / 2 ^ 46"
    and pos: "0 \<le> x" and small: "x < 128"
  shows "of_int a / 2 ^ 46 \<le> to_double x \<and> to_double x \<le> of_int b / 2 ^ 46"
proof (cases "x = 0")
  case True
  then show ?thesis using lo hi by (simp add: to_double_def)
next
  case False
  define e where "e = max (binade 2200 \<bar>x\<bar>) (- 1022)"
  define j where "j = nat (6 - e)"
  have "\<bar>x\<bar> < 2 ^ 7" using pos small by simp
  then have "binade 2200 \<bar>x\<bar> < int 7" by (intro binade_less) simp_all
  then have e6: "e \<le> 6" unfolding e_def by simp
  then have ej: "e - 52 = - int (46 + j)" unfolding j_def by simp
  have neg: "\<not> 0 \<le> - int (46 + j)" by simp
  have n: "nat (- (- int (46 + j))) = 46 + j" by simp
  have u: "pow2 (e - 52) = 1 / (2 ^ 46 * 2 ^ j)"
    unfolding ej pow2_def by (simp only: neg if_False n power_add)
  have td: "to_double x = of_int (round_half_even (x * (2 ^ 46 * 2 ^ j))) / (2 ^ 46 * 2 ^ j)"
    using False by (simp add: to_double_def Let_def e_def [symmetric] u)
  have p: "(0::rat) < 2 ^ j" by simp
  have "of_int (a * 2 ^ j) \<le> x * (2 ^ 46 * 2 ^ j)"
  proof -
    have "of_int a \<le> x * 2 ^ 46" using lo by (simp add: divide_le_eq)
    then have "of_int a * 2 ^ j \<le> (x * 2 ^ 46) * 2 ^ j" using p by (simp only: mult_le_cancel_right_pos)
    then show ?thesis by (simp add: mult.assoc)
  qed
  moreover have "x * (2 ^ 46 * 2 ^ j) \<le> of_int (b * 2 ^ j)"
  proof -
    have "x * 2 ^ 46 \<le> of_int b" using hi by (simp add: le_divide_eq)
    then have "(x * 2 ^ 46) * 2 ^ j \<le> of_int b * 2 ^ j" using p by (simp only: mult_le_cancel_right_pos)
    then show ?thesis by (simp add: mult.assoc)
  qed
  ultimately have r: "a * 2 ^ j \<le> round_half_even (x * (2 ^ 46 * 2 ^ j))"
    "round_half_even (x * (2 ^ 46 * 2 ^ j)) \<le> b * 2 ^ j"
    using round_half_even_between by blast+
  have "(of_int (a * 2 ^ j) :: rat) \<le> of_int (round_half_even (x * (2 ^ 46 * 2 ^ j)))"
    using r(1) by (simp only: of_int_le_iff)
  then have 1: "of_int a / 2 ^ 46 \<le> to_double x"
    unfolding td by (simp add: divide_le_eq le_divide_eq field_simps)
  have "(of_int (round_half_even (x * (2 ^ 46 * 2 ^ j))) :: rat) \<le> of_int (b * 2 ^ j)"
    using r(2) by (simp only: of_int_le_iff)
  then have 2: "to_double x \<le> of_int b / 2 ^ 46"
    unfolding td by (simp add: divide_le_eq le_divide_eq field_simps)
  from 1 2 show ?thesis by blast
qed

lemma confidence_number_range:
  assumes "0 \<le> r" and "r < 1"
  shows "80 \<le> to_double (to_double (r * 20) + 80) \<and> to_double (to_double (r * 20) + 80) \<le> 100"
proof -
  have "of_int 0 / 2 ^ 46 \<le> to_double (r * 20) \<and> to_double (r * 20) \<le> of_int (20 * 2 ^ 46) / 2 ^ 46"
    using assms by (intro to_double_between) simp_all
  then have p: "0 \<le> to_double (r * 20)" "to_double (r * 20) \<le> 20" by simp_all
  have "of_int (80 * 2 ^ 46) / 2 ^ 46 \<le> to_double (to_double (r * 20) + 80)
      \<and> to_double (to_double (r * 20) + 80) \<le> of_int (100 * 2 ^ 46) / 2 ^ 46"
    using p by (intro to_double_between) simp_all
  then show ?thesis by simp
qed

text \<open>
  The rounding matters: for the greatest double below 0.0125 the exact value is below 80.25,
  the value in doubles is 80.25, and \<^verbatim>\<open>toFixed(1)\<close> rounds that tie upwards.
\<close>

lemma confidence_tie_rounds_up:
  "toFixed1 (to_double (to_double (7205759403792793 / 2 ^ 59 * 20) + 80)) = ''80.3''
   \<and> toFixed1 (7205759403792793 / 2 ^ 59 * 20 + 80) = ''80.2''"
  by code_simp

text \<open>What \<^verbatim>\<open>toFixed(1)\<close> prints reads back as the number of tenths it printed.\<close>

lemma toFixed1_between:
  assumes "80 \<le> x" and "x \<le> 100"
  shows "\<exists>n. 800 \<le> n \<and> n \<le> 1000 \<and> toFixed1 x = fixed1 n"
proof -
  define k where "k = \<lfloor>x * 10 + 1 / 2\<rfloor>"
  have x0: "\<not> x < 0" using assms by simp
  have "(800::rat) \<le> x * 10 + 1 / 2" using assms by simp
  then have lo: "800 \<le> k" unfolding k_def by (simp only: le_floor_iff of_int_numeral)
  have "x * 10 + 1 / 2 < (1001::rat)" using assms by simp
  then have "k < 1001" unfolding k_def by (simp only: floor_less_iff of_int_numeral)
  then have hi: "k \<le> 1000" by simp
  have "toFixed1 x = fixed1 (nat k)"
    unfolding k_def using x0 by (simp only: toFixed1_def if_False)
  moreover have "800 \<le> nat k" "nat k \<le> 1000" using lo hi by simp_all
  ultimately show ?thesis by blast
qed

lemma digit_value_table: "\<forall>d \<in> set [0 ..< 10]. digit_value (digit_char d) = Some d"
  by code_simp

lemma digit_value_digit_char: "d < 10 \<Longrightarrow> digit_value (digit_char d) = Some d"
  using digit_value_table by simp

lemma digit_value_point: "digit_value CHR ''.'' = None"
  by code_simp

lemma digits_value_append:
  "digits_value acc (xs @ ys) =
     (case digits_value acc xs of None \<Rightarrow> None | Some a \<Rightarrow> digits_value a ys)"
  by (induction xs arbitrary: acc) (auto split: option.splits)

lemma digits_value_decimal: "digits_value 0 (decimal n) = Some n"
proof (induction n rule: decimal.induct)
  case (1 n)
  show ?case
  proof (cases "n < 10")
    case True
    then show ?thesis by (simp add: decimal.simps [of n] digit_value_digit_char)
  next
    case False
    have "digit_value (digit_char (n mod 10)) = Some (n mod 10)"
      by (rule digit_value_digit_char) simp
    then show ?thesis
      using False "1.IH" by (simp add: decimal.simps [of n] digits_value_append)
  qed
qed

lemma decimal_not_empty: "decimal n \<noteq> []"
  by (simp add: decimal.simps [of n])

lemma decimal_no_point: "c \<in> set (decimal n) \<Longrightarrow> c \<noteq> CHR ''.''"
proof (induction n rule: decimal.induct)
  case (1 n)
  have d: "digit_char (n mod 10) \<noteq> CHR ''.''"
  proof
    assume "digit_char (n mod 10) = CHR ''.''"
    then have "digit_value (digit_char (n mod 10)) = None" by (simp only: digit_value_point)
    moreover have "digit_value (digit_char (n mod 10)) = Some (n mod 10)"
      by (rule digit_value_digit_char) simp
    ultimately show False by simp
  qed
  show ?case
  proof (cases "n < 10")
    case True
    then have "c = digit_char (n mod 10)" using "1.prems" by (simp add: decimal.simps [of n])
    then show ?thesis using d by simp
  next
    case False
    then have "c \<in> set (decimal (n div 10)) \<or> c = digit_char (n mod 10)"
      using "1.prems" by (auto simp: decimal.simps [of n])
    then show ?thesis using "1.IH" [OF False] d by auto
  qed
qed

lemma percentage_value_fixed1: "percentage_value (fixed1 n) = Some (of_nat n / 10)"
proof -
  let ?w = "decimal (n div 10)"
  have w: "\<forall>c \<in> set ?w. c \<noteq> CHR ''.''" using decimal_no_point by blast
  have t: "decimal (n mod 10) = [digit_char (n mod 10)]" by (simp add: decimal.simps [of "n mod 10"])
  have f: "fixed1 n = ?w @ CHR ''.'' # [digit_char (n mod 10)]" by (simp add: fixed1_def t)
  have tw: "takeWhile (\<lambda>c. c \<noteq> CHR ''.'') (fixed1 n) = ?w"
    unfolding f using w by (simp add: takeWhile_append1 takeWhile_append2)
  have dw: "dropWhile (\<lambda>c. c \<noteq> CHR ''.'') (fixed1 n) = [CHR ''.'', digit_char (n mod 10)]"
    unfolding f using w by (simp add: dropWhile_append2)
  have dv: "digit_value (digit_char (n mod 10)) = Some (n mod 10)"
    by (rule digit_value_digit_char) simp
  have "percentage_value (fixed1 n) = Some (of_nat (n div 10) + of_nat (n mod 10) / 10)"
    by (simp add: percentage_value_def tw dw decimal_not_empty digits_value_decimal dv)
  moreover have "(of_nat (n div 10) + of_nat (n mod 10) / 10 :: rat) = of_nat n / 10"
  proof -
    have "(of_nat n :: rat) = of_nat (10 * (n div 10) + n mod 10)" by simp
    also have "\<dots> = 10 * of_nat (n div 10) + of_nat (n mod 10)" by (simp only: of_nat_add of_nat_mult of_nat_numeral)
    finally show ?thesis by simp
  qed
  ultimately show ?thesis by simp
qed

lemma confidence_range:
  assumes "0 \<le> r" and "r < 1"
  shows "\<exists>q. percentage_value (toFixed1 (to_double (to_double (r * 20) + 80))) = Some q
             \<and> 80 \<le> q \<and> q \<le> 100"
proof -
  have "80 \<le> to_double (to_double (r * 20) + 80) \<and> to_double (to_double (r * 20) + 80) \<le> 100"
    using assms by (rule confidence_number_range)
  then obtain n where n: "800 \<le> n" "n \<le> 1000"
    "toFixed1 (to_double (to_double (r * 20) + 80)) = fixed1 n"
    using toFixed1_between by blast
  have "percentage_value (toFixed1 (to_double (to_double (r * 20) + 80))) = Some (of_nat n / 10)"
    by (simp only: n(3) percentage_value_fixed1)
  moreover have "(80::rat) \<le> of_nat n / 10" using n(1) by (simp add: le_divide_eq)
  moreover have "(of_nat n / 10 :: rat) \<le> 100" using n(2) by (simp add: divide_le_eq)
  ultimately show ?thesis by blast
qed

subsection \<open>Statistics\<close>

lemma stats_perm: "mset h' = mset h \<Longrightarrow> updateStats h' = updateStats h"
proof -
  assume a: "mset h' = mset h"
  have l: "length h' = length h" using a by (rule mset_eq_length)
  have f: "\<And>P. length (filter P h') = length (filter P h)"
  proof -
    fix P :: "historyItem \<Rightarrow> bool"
    have "mset (filter P h') = mset (filter P h)" using a by simp
    then show "length (filter P h') = length (filter P h)" by (rule mset_eq_length)
  qed
  show ?thesis by (simp add: updateStats_def l f)
qed

lemma count_status: "count (image_mset h_status (mset h)) s = length (filter (\<lambda>i. h_status i = s) h)"
  by (induction h) auto

subsection \<open>Analysis\<close>

lemma get_image_objects:
  "get_image st imageId = Some (a, imageData) \<Longrightarrow>
     uploadedImages st imageId = Some a \<and> objects st a = Some imageData"
  by (auto simp: get_image_def split: option.splits)

lemma sample_app_get:
  "get_image (sample_app imageData rendered) (img_id imageData) = Some (0, imageData)"
  by (simp add: sample_app_def get_image_def constructor_def)

lemma analyzeImage_begin_proceeds:
  assumes "get_image st imageId = Some (a, imageData)"
    and "img_status imageData \<noteq> ''analyzing''" and "imageId \<in> gallery st"
  shows "analyzeImage_begin st imageId =
           Awaiting (st\<lparr>objects := (objects st)(a \<mapsto> imageData\<lparr>img_status := ''analyzing''\<rparr>)\<rparr>) a"
  using assms by (simp add: analyzeImage_begin_def)

lemma addToHistory_history:
  "analysisHistory (addToHistory st imageData) =
     \<lparr>h_id = img_id imageData, h_name = img_name imageData, h_status = img_status imageData,
      h_confidence = img_confidence imageData, h_date = img_analyzedAt imageData,
      h_size = img_size imageData\<rparr> # analysisHistory st"
  by (simp add: addToHistory_def Let_def saveAnalysisHistory_def)

lemma addToHistory_frame:
  "objects (addToHistory st imageData) = objects st"
  "uploadedImages (addToHistory st imageData) = uploadedImages st"
  by (simp_all add: addToHistory_def Let_def saveAnalysisHistory_def)

lemma showToast_frame:
  "objects (showToast st m t) = objects st"
  "uploadedImages (showToast st m t) = uploadedImages st"
  "analysisHistory (showToast st m t) = analysisHistory st"
  "localStorage (showToast st m t) = localStorage st"
  by (simp_all add: showToast_def)

lemma resume_fulfilled:
  fixes r1 r2 :: rat and now :: string
  assumes "objects st a = Some imageData"
  defines "imageData' \<equiv> imageData\<lparr>img_status := (if r1 > 1 / 2 then ''authorized'' else ''unauthorized''),
               img_confidence := Some (toFixed1 (to_double (to_double (r2 * 20) + 80))), img_analyzedAt := Some now\<rparr>"
  shows "objects (analyzeImage_resume st a (Fulfilled r1 r2 now)) = (objects st)(a \<mapsto> imageData')"
    and "uploadedImages (analyzeImage_resume st a (Fulfilled r1 r2 now)) = uploadedImages st"
    and "analysisHistory (analyzeImage_resume st a (Fulfilled r1 r2 now)) =
          \<lparr>h_id = img_id imageData, h_name = img_name imageData, h_status = img_status imageData',
           h_confidence = img_confidence imageData', h_date = Some now,
           h_size = img_size imageData\<rparr> # analysisHistory st"
  using assms(1) unfolding imageData'_def
  by (simp_all add: analyzeImage_resume_def Let_def showToast_frame addToHistory_frame
      addToHistory_history)

lemma resume_rejected:
  assumes "objects st a = Some imageData"
  shows "objects (analyzeImage_resume st a Rejected) = (objects st)(a \<mapsto> imageData\<lparr>img_status := ''error''\<rparr>)"
    and "analysisHistory (analyzeImage_resume st a Rejected) = analysisHistory st"
    and "localStorage (analyzeImage_resume st a Rejected) = localStorage st"
  using assms by (simp_all add: analyzeImage_resume_def showToast_def)

lemma analyzeImage_fulfilled:
  fixes r1 r2 :: rat and now :: string
  assumes g: "get_image st imageId = Some (a, imageData)"
    and s: "img_status imageData \<noteq> ''analyzing''" and e: "imageId \<in> gallery st"
  defines "imageData' \<equiv> imageData\<lparr>img_status := (if r1 > 1 / 2 then ''authorized'' else ''unauthorized''),
               img_confidence := Some (toFixed1 (to_double (to_double (r2 * 20) + 80))), img_analyzedAt := Some now\<rparr>"
  shows "get_image (analyzeImage st imageId (Fulfilled r1 r2 now)) imageId = Some (a, imageData')"
    and "analysisHistory (analyzeImage st imageId (Fulfilled r1 r2 now)) =
          \<lparr>h_id = img_id imageData, h_name = img_name imageData, h_status = img_status imageData',
           h_confidence = img_confidence imageData', h_date = Some now,
           h_size = img_size imageData\<rparr> # analysisHistory st"
proof -
  let ?st1 = "st\<lparr>objects := (objects st)(a \<mapsto> imageData\<lparr>img_status := ''analyzing''\<rparr>)\<rparr>"
  have b: "analyzeImage st imageId (Fulfilled r1 r2 now) = analyzeImage_resume ?st1 a (Fulfilled r1 r2 now)"
    by (simp add: analyzeImage_def analyzeImage_begin_proceeds [OF g s e])
  have o: "objects ?st1 a = Some (imageData\<lparr>img_status := ''analyzing''\<rparr>)" by simp
  have u: "uploadedImages st imageId = Some a" using g by (simp add: get_image_objects)
  show "get_image (analyzeImage st imageId (Fulfilled r1 r2 now)) imageId = Some (a, imageData')"
    unfolding b imageData'_def
    by (simp add: get_image_def resume_fulfilled [OF o] u)
  show "analysisHistory (analyzeImage st imageId (Fulfilled r1 r2 now)) =
          \<lparr>h_id = img_id imageData, h_name = img_name imageData, h_status = img_status imageData',
           h_confidence = img_confidence imageData', h_date = Some now,
           h_size = img_size imageData\<rparr> # analysisHistory st"
    unfolding b imageData'_def
    by (simp add: resume_fulfilled [OF o])
qed

lemma analyzeImage_rejected:
  assumes g: "get_image st imageId = Some (a, imageData)"
    and s: "img_status imageData \<noteq> ''analyzing''" and e: "imageId \<in> gallery st"
  shows "get_image (analyzeImage st imageId Rejected) imageId
           = Some (a, imageData\<lparr>img_status := ''error''\<rparr>)"
    and "analysisHistory (analyzeImage st imageId Rejected) = analysisHistory st"
    and "localStorage (analyzeImage st imageId Rejected) = localStorage st"
proof -
  let ?st1 = "st\<lparr>objects := (objects st)(a \<mapsto> imageData\<lparr>img_status := ''analyzing''\<rparr>)\<rparr>"
  have b: "analyzeImage st imageId Rejected = analyzeImage_resume ?st1 a Rejected"
    by (simp add: analyzeImage_def analyzeImage_begin_proceeds [OF g s e])
  have o: "objects ?st1 a = Some (imageData\<lparr>img_status := ''analyzing''\<rparr>)" by simp
  have u: "uploadedImages st imageId = Some a" using g by (simp add: get_image_objects)
  have u': "uploadedImages (analyzeImage_resume ?st1 a Rejected) = uploadedImages st"
    by (simp add: analyzeImage_resume_def showToast_def)
  show "get_image (analyzeImage st imageId Rejected) imageId
           = Some (a, imageData\<lparr>img_status := ''error''\<rparr>)"
    unfolding b by (simp add: get_image_def resume_rejected(1) [OF o] u u')
  show "analysisHistory (analyzeImage st imageId Rejected) = analysisHistory st"
    unfolding b by (simp add: resume_rejected(2) [OF o])
  show "localStorage (analyzeImage st imageId Rejected) = localStorage st"
    unfolding b by (simp add: resume_rejected(3) [OF o])
qed

subsection \<open>Persistence\<close>

text \<open>
  \<^verbatim>\<open>loadSettings\<close> never writes the store, and leaves the settings alone when the record
  does not parse. \<^verbatim>\<open>loadUserData\<close>, in the same situation, removes its record.
\<close>

lemma loadSettings_localStorage: "localStorage (loadSettings st) = localStorage st"
  by (simp add: loadSettings_def split: option.splits stored.splits)

lemma loadSettings_garbled:
  "localStorage st ''billboardAI_settings'' = Some (Garbled txt) \<Longrightarrow>
     settings (loadSettings st) = settings st"
  by (simp add: loadSettings_def)

lemma loadUserData_garbled:
  "localStorage st ''currentUser'' = Some (Garbled txt) \<Longrightarrow> txt \<noteq> [] \<Longrightarrow>
     localStorage (loadUserData st) ''currentUser'' = None"
  by (simp add: loadUserData_def)


section \<open>Claims about the analysis of an image\<close>

text \<open>
  Claim C1, on the run above. The second image is on the list the batch driver took while
  it was pending. When the driver reaches it, its status is \<^verbatim>\<open>authorized\<close> and the history
  holds one item for each image. The guard of \<^verbatim>\<open>analyzeImage\<close> only tests for a missing
  entry and for the status \<^verbatim>\<open>analyzing\<close>, so the call goes through: the status becomes
  \<^verbatim>\<open>unauthorized\<close> and the history gets a second item for the same image.
\<close>

theorem analyzeImage_reanalyses_authorized:
  "map img_id (pendingImages sample_batch_app
        [''img_1700000000000_k3j9x2a1b'', ''img_1700000000002_m4n5b6v7c''])
     = [''img_1700000000000_k3j9x2a1b'', ''img_1700000000002_m4n5b6v7c'']
   \<and> map_option img_status (objects batch_first_done 1) = Some ''authorized''
   \<and> map h_id (analysisHistory batch_first_done)
       = [''img_1700000000000_k3j9x2a1b'', ''img_1700000000002_m4n5b6v7c'']
   \<and> map_option img_status (objects batch_second_again 1) = Some ''unauthorized''
   \<and> map h_id (analysisHistory batch_second_again)
       = [''img_1700000000002_m4n5b6v7c'', ''img_1700000000000_k3j9x2a1b'',
          ''img_1700000000002_m4n5b6v7c'']
   \<and> map h_status (analysisHistory batch_second_again)
       = [''unauthorized'', ''unauthorized'', ''authorized'']"
  by (simp add: batch_second_again_def batch_first_done_def batch_second_done_def
      batch_second_clicked_def batch_first_started_def sample_batch_app_def
      sample_image_def sample_second_image_def constructor_def default_settings_def
      pendingImages_def List.map_filter_simps
      analyzeImage_def analyzeImage_begin_def get_image_def analyzeImage_resume_def Let_def
      addToHistory_def saveAnalysisHistory_def showToast_def)

text \<open>
  Claim C5. For an entry whose status is \<^verbatim>\<open>analyzing\<close>, \<^verbatim>\<open>analyzeImage\<close> returns at its
  guard without suspending: the whole state, the entry and the history included, is as it
  was, whatever the outcome an analysis would have had.
\<close>

theorem analyzeImage_analyzing_noop:
  assumes "get_image st imageId = Some (a, imageData)"
    and "img_status imageData = ''analyzing''"
  shows "analyzeImage_begin st imageId = Returned st \<and> analyzeImage st imageId outcome = st"
  using assms by (simp add: analyzeImage_def analyzeImage_begin_def)

theorem analyzeImage_analyzing_noop_witness:
  "get_image (sample_app (sample_image\<lparr>img_status := ''analyzing''\<rparr>) True)
      ''img_1700000000000_k3j9x2a1b''
     = Some (0, sample_image\<lparr>img_status := ''analyzing''\<rparr>)
   \<and> img_status (sample_image\<lparr>img_status := ''analyzing''\<rparr>) = ''analyzing''
   \<and> analyzeImage_begin (sample_app (sample_image\<lparr>img_status := ''analyzing''\<rparr>) True)
        ''img_1700000000000_k3j9x2a1b''
       = Returned (sample_app (sample_image\<lparr>img_status := ''analyzing''\<rparr>) True)
   \<and> analyzeImage (sample_app (sample_image\<lparr>img_status := ''analyzing''\<rparr>) True)
        ''img_1700000000000_k3j9x2a1b'' (Fulfilled (3 / 4) (1 / 2) ''2024-05-01T10:00:00.000Z'')
       = sample_app (sample_image\<lparr>img_status := ''analyzing''\<rparr>) True"
proof -
  let ?img = "sample_image\<lparr>img_status := ''analyzing''\<rparr>"
  let ?id = "''img_1700000000000_k3j9x2a1b''"
  have i: "img_id ?img = ?id" by (simp add: sample_image_def)
  have g: "get_image (sample_app ?img True) ?id = Some (0, ?img)"
    using sample_app_get [of ?img True] by (simp only: i)
  have s: "img_status ?img = ''analyzing''" by simp
  from analyzeImage_analyzing_noop [OF g s] g s show ?thesis by blast
qed

text \<open>
  Claim C9. When \<^verbatim>\<open>analyzeImage\<close> is called on a pending entry (whose gallery element exists)
  and the awaited call resolves, the entry's status is \<^verbatim>\<open>authorized\<close> or \<^verbatim>\<open>unauthorized\<close>,
  its confidence is a string that reads as a number from 80 to 100, and the history is the
  old one with exactly one item put in front, which carries that status and confidence.
\<close>

theorem analyzeImage_completion:
  assumes "get_image st imageId = Some (a, imageData)"
    and "img_status imageData = ''pending''"
    and "imageId \<in> gallery st"
    and "0 \<le> r2" and "r2 < 1"
  shows "\<exists>imageData' c q.
           get_image (analyzeImage st imageId (Fulfilled r1 r2 now)) imageId = Some (a, imageData')
         \<and> (img_status imageData' = ''authorized'' \<or> img_status imageData' = ''unauthorized'')
         \<and> img_confidence imageData' = Some c
         \<and> percentage_value c = Some q \<and> 80 \<le> q \<and> q \<le> 100
         \<and> length (analysisHistory (analyzeImage st imageId (Fulfilled r1 r2 now)))
             = length (analysisHistory st) + 1
         \<and> tl (analysisHistory (analyzeImage st imageId (Fulfilled r1 r2 now))) = analysisHistory st
         \<and> h_status (hd (analysisHistory (analyzeImage st imageId (Fulfilled r1 r2 now))))
             = img_status imageData'
         \<and> h_confidence (hd (analysisHistory (analyzeImage st imageId (Fulfilled r1 r2 now))))
             = Some c"
proof -
  have s: "img_status imageData \<noteq> ''analyzing''" using assms(2) by simp
  let ?c = "toFixed1 (to_double (to_double (r2 * 20) + 80))"
  obtain q where q: "percentage_value ?c = Some q" "80 \<le> q" "q \<le> 100"
    using confidence_range [OF assms(4) assms(5)] by blast
  let ?img = "imageData\<lparr>img_status := (if r1 > 1 / 2 then ''authorized'' else ''unauthorized''),
               img_confidence := Some ?c, img_analyzedAt := Some now\<rparr>"
  note f = analyzeImage_fulfilled [OF assms(1) s assms(3), of r1 r2 now]
  have "get_image (analyzeImage st imageId (Fulfilled r1 r2 now)) imageId = Some (a, ?img)"
    by (rule f(1))
  moreover have "img_status ?img = ''authorized'' \<or> img_status ?img = ''unauthorized''" by simp
  moreover have "img_confidence ?img = Some ?c" by simp
  moreover have "length (analysisHistory (analyzeImage st imageId (Fulfilled r1 r2 now)))
             = length (analysisHistory st) + 1"
    by (simp add: f(2))
  moreover have "tl (analysisHistory (analyzeImage st imageId (Fulfilled r1 r2 now))) = analysisHistory st"
    by (simp add: f(2))
  moreover have "h_status (hd (analysisHistory (analyzeImage st imageId (Fulfilled r1 r2 now))))
             = img_status ?img"
    by (simp add: f(2))
  moreover have "h_confidence (hd (analysisHistory (analyzeImage st imageId (Fulfilled r1 r2 now))))
             = Some ?c"
    by (simp add: f(2))
  ultimately show ?thesis using q by blast
qed

theorem analyzeImage_completion_witness:
  "get_image (sample_app sample_image True) ''img_1700000000000_k3j9x2a1b'' = Some (0, sample_image)
   \<and> img_status sample_image = ''pending''
   \<and> ''img_1700000000000_k3j9x2a1b'' \<in> gallery (sample_app sample_image True)
   \<and> get_image (analyzeImage (sample_app sample_image True) ''img_1700000000000_k3j9x2a1b''
                  (Fulfilled (3 / 4) (1 / 2) ''2024-05-01T10:00:00.000Z''))
        ''img_1700000000000_k3j9x2a1b''
       = Some (0, sample_image\<lparr>img_status := ''authorized'', img_confidence := Some ''90.0'',
                    img_analyzedAt := Some ''2024-05-01T10:00:00.000Z''\<rparr>)
   \<and> percentage_value ''90.0'' = Some 90
   \<and> (\<exists>imageData' c q.
           get_image (analyzeImage (sample_app sample_image True) ''img_1700000000000_k3j9x2a1b''
                        (Fulfilled (3 / 4) (1 / 2) ''2024-05-01T10:00:00.000Z''))
             ''img_1700000000000_k3j9x2a1b'' = Some (0, imageData')
         \<and> (img_status imageData' = ''authorized'' \<or> img_status imageData' = ''unauthorized'')
         \<and> img_confidence imageData' = Some c
         \<and> percentage_value c = Some q \<and> 80 \<le> q \<and> q \<le> 100
         \<and> length (analysisHistory (analyzeImage (sample_app sample_image True)
                ''img_1700000000000_k3j9x2a1b''
                (Fulfilled (3 / 4) (1 / 2) ''2024-05-01T10:00:00.000Z'')))
             = length (analysisHistory (sample_app sample_image True)) + 1)"
proof -
  let ?st = "sample_app sample_image True"
  let ?id = "''img_1700000000000_k3j9x2a1b''"
  have i: "img_id sample_image = ?id" by (simp add: sample_image_def)
  have g: "get_image ?st ?id = Some (0, sample_image)"
    using sample_app_get [of sample_image True] by (simp only: i)
  have p: "img_status sample_image = ''pending''" by (simp add: sample_image_def)
  have n: "img_status sample_image \<noteq> ''analyzing''" by (simp add: sample_image_def)
  have e: "?id \<in> gallery ?st" by (simp add: sample_app_def sample_image_def)
  have r: "(0::rat) \<le> 1 / 2" "(1 / 2 :: rat) < 1" by simp_all
  have c: "toFixed1 (to_double (to_double (1 / 2 * 20) + 80)) = ''90.0''" by code_simp
  have v: "percentage_value ''90.0'' = Some 90" by code_simp
  have l: "get_image (analyzeImage ?st ?id (Fulfilled (3 / 4) (1 / 2) ''2024-05-01T10:00:00.000Z'')) ?id
       = Some (0, sample_image\<lparr>img_status := ''authorized'', img_confidence := Some ''90.0'',
                    img_analyzedAt := Some ''2024-05-01T10:00:00.000Z''\<rparr>)"
    using analyzeImage_fulfilled(1)
            [OF g n e, of "3 / 4" "1 / 2" "''2024-05-01T10:00:00.000Z''", unfolded c]
    by simp
  from analyzeImage_completion [OF g p e r, of "3 / 4" "''2024-05-01T10:00:00.000Z''"]
  show ?thesis using g p e l v by blast
qed

text \<open>
  Claim C10. For an id that is not a key of \<^verbatim>\<open>uploadedImages\<close>, \<^verbatim>\<open>analyzeImage\<close> returns at
  its guard without suspending, and the whole state (the entries, the history and the
  store among it) is as it was.
\<close>

theorem analyzeImage_unknown_id:
  assumes "uploadedImages st imageId = None"
  shows "analyzeImage_begin st imageId = Returned st \<and> analyzeImage st imageId outcome = st"
  using assms by (simp add: analyzeImage_def analyzeImage_begin_def get_image_def)

theorem analyzeImage_unknown_id_witness:
  "uploadedImages (sample_app sample_image True) ''img_1700000009999_unknown00'' = None
   \<and> analyzeImage_begin (sample_app sample_image True) ''img_1700000009999_unknown00''
       = Returned (sample_app sample_image True)
   \<and> analyzeImage (sample_app sample_image True) ''img_1700000009999_unknown00'' Rejected
       = sample_app sample_image True"
proof -
  have u: "uploadedImages (sample_app sample_image True) ''img_1700000009999_unknown00'' = None"
    by (simp add: sample_app_def sample_image_def)
  from analyzeImage_unknown_id [OF u] u show ?thesis by blast
qed


section \<open>Claims about persistence\<close>

text \<open>
  Claim C2, at a store whose settings record does not parse: \<^verbatim>\<open>loadSettings\<close>, run on the
  freshly constructed application, leaves the default settings in place, and the corrupt
  record is still in the store afterwards.
\<close>

theorem loadSettings_keeps_corrupt_record:
  "localStorage (constructor sample_corrupt_store) ''billboardAI_settings'' = Some (Garbled ''{theme:'')
   \<and> settings (loadSettings (constructor sample_corrupt_store)) = default_settings
   \<and> localStorage (loadSettings (constructor sample_corrupt_store)) ''billboardAI_settings''
       = Some (Garbled ''{theme:'')"
  by (simp add: loadSettings_def constructor_def sample_corrupt_store_def)


section \<open>Claims about validation\<close>

text \<open>
  Claim C3, as stated: only files whose MIME type is one of the four for JPEG, PNG, GIF and
  WebP are accepted, and any other type is rejected as unsupported. It fails for the type
  \<^verbatim>\<open>image/jpg\<close>, which is none of \<^verbatim>\<open>image/jpeg\<close>, \<^verbatim>\<open>image/png\<close>, \<^verbatim>\<open>image/gif\<close> and
  \<^verbatim>\<open>image/webp\<close>: \<^verbatim>\<open>allowedTypes\<close> lists it, so the file is accepted and no toast is shown.
\<close>

theorem validateFiles_accepts_image_jpg:
  "file_type sample_jpg = ''image/jpg''
   \<and> ''image/jpg'' \<notin> {''image/jpeg'', ''image/png'', ''image/gif'', ''image/webp''}
   \<and> fst (validateFiles (constructor Map.empty) [sample_jpg]) = [sample_jpg]
   \<and> toasts (snd (validateFiles (constructor Map.empty) [sample_jpg])) = []"
  by (simp add: validateFiles_def validate_file_def allowedTypes_def constructor_def
      default_settings_def sample_jpg_def)

text \<open>
  Claim C3, amended: the allow-list has five entries, \<^verbatim>\<open>image/jpeg\<close>, \<^verbatim>\<open>image/jpg\<close>,
  \<^verbatim>\<open>image/png\<close>, \<^verbatim>\<open>image/gif\<close> and \<^verbatim>\<open>image/webp\<close>. Whatever the batch, every file
  \<^verbatim>\<open>validateFiles\<close> returns is one of the batch and has one of these five types. A file of
  the batch with any other type is not returned, and a toast of type \<^verbatim>\<open>error\<close> names it
  with the reason \<^verbatim>\<open>Unsupported file type\<close>.
\<close>

theorem validateFiles_allow_list:
  "(\<forall>f \<in> set (fst (validateFiles st files)).
       f \<in> set files \<and>
       file_type f \<in> {''image/jpeg'', ''image/jpg'', ''image/png'', ''image/gif'', ''image/webp''})
   \<and> (\<forall>f \<in> set files.
         file_type f \<notin> {''image/jpeg'', ''image/jpg'', ''image/png'', ''image/gif'', ''image/webp''} \<longrightarrow>
           f \<notin> set (fst (validateFiles st files)) \<and>
           (file_name f @ '': Unsupported file type'', ''error'')
              \<in> set (toasts (snd (validateFiles st files))))"
proof (intro conjI ballI impI)
  fix f assume "f \<in> set (fst (validateFiles st files))"
  then show "f \<in> set files" by (simp add: validateFiles_eq)
next
  fix f assume "f \<in> set (fst (validateFiles st files))"
  then have "file_type f \<in> set allowedTypes" by (simp add: validateFiles_eq)
  then show "file_type f \<in> {''image/jpeg'', ''image/jpg'', ''image/png'', ''image/gif'', ''image/webp''}"
    by (simp only: set_allowedTypes)
next
  fix f
  assume f: "f \<in> set files"
    and "file_type f \<notin> {''image/jpeg'', ''image/jpg'', ''image/png'', ''image/gif'', ''image/webp''}"
  then have t: "file_type f \<notin> set allowedTypes" by (simp add: set_allowedTypes)
  then show "f \<notin> set (fst (validateFiles st files))" by (simp add: validateFiles_eq)
next
  fix f
  assume f: "f \<in> set files"
    and "file_type f \<notin> {''image/jpeg'', ''image/jpg'', ''image/png'', ''image/gif'', ''image/webp''}"
  then have t: "file_type f \<notin> set allowedTypes" by (simp add: set_allowedTypes)
  have "(file_name f @ '': Unsupported file type'', ''error'')
          \<in> set (rejection (maxFileSize (settings st)) (maxFileSize (settings st) * 1024 * 1024) f)"
    using t by (simp add: rejection_def)
  then show "(file_name f @ '': Unsupported file type'', ''error'')
              \<in> set (toasts (snd (validateFiles st files)))"
    using f by (auto simp: validateFiles_eq)
qed

theorem validateFiles_allow_list_witness:
  "sample_png \<in> set (fst (validateFiles (constructor Map.empty) [sample_png, sample_pdf]))
   \<and> file_type sample_png = ''image/png''
   \<and> sample_pdf \<in> set [sample_png, sample_pdf]
   \<and> file_type sample_pdf \<notin> {''image/jpeg'', ''image/jpg'', ''image/png'', ''image/gif'', ''image/webp''}
   \<and> sample_pdf \<notin> set (fst (validateFiles (constructor Map.empty) [sample_png, sample_pdf]))
   \<and> (''permit.pdf: Unsupported file type'', ''error'')
        \<in> set (toasts (snd (validateFiles (constructor Map.empty) [sample_png, sample_pdf])))"
proof -
  have v: "fst (validateFiles (constructor Map.empty) [sample_png, sample_pdf]) = [sample_png]"
    by (simp add: validateFiles_def validate_file_def allowedTypes_def constructor_def
        default_settings_def sample_files showToast_def)
  have m: "sample_pdf \<in> set [sample_png, sample_pdf]" by simp
  have t: "file_type sample_pdf \<notin> {''image/jpeg'', ''image/jpg'', ''image/png'', ''image/gif'', ''image/webp''}"
    by (simp add: sample_files)
  from validateFiles_allow_list [of "constructor Map.empty" "[sample_png, sample_pdf]"]
  have "sample_pdf \<notin> set (fst (validateFiles (constructor Map.empty) [sample_png, sample_pdf])) \<and>
        (file_name sample_pdf @ '': Unsupported file type'', ''error'')
          \<in> set (toasts (snd (validateFiles (constructor Map.empty) [sample_png, sample_pdf])))"
    using m t by blast
  then show ?thesis using v m t by (simp add: sample_files)
qed

text \<open>
  Claim C6. For every \<^verbatim>\<open>maxFileSize\<close> setting, a file of an allowed type whose size is
  exactly \<^verbatim>\<open>maxFileSize * 1024 * 1024\<close> bytes is returned by \<^verbatim>\<open>validateFiles\<close>; one that
  is a single byte larger is not, and a toast of type \<^verbatim>\<open>error\<close> names it with the reason
  \<^verbatim>\<open>File too large\<close> and the limit.
\<close>

theorem validateFiles_size_boundary:
  assumes "f \<in> set files"
    and "file_type f \<in> {''image/jpeg'', ''image/jpg'', ''image/png'', ''image/gif'', ''image/webp''}"
  shows "(int (file_size f) = maxFileSize (settings st) * 1024 * 1024 \<longrightarrow>
            f \<in> set (fst (validateFiles st files)))
       \<and> (int (file_size f) = maxFileSize (settings st) * 1024 * 1024 + 1 \<longrightarrow>
            f \<notin> set (fst (validateFiles st files)) \<and>
            (file_name f @ '': File too large (max ''
               @ number_to_string (maxFileSize (settings st)) @ ''MB)'', ''error'')
              \<in> set (toasts (snd (validateFiles st files))))"
proof -
  have t: "file_type f \<in> set allowedTypes" using assms(2) by (simp only: set_allowedTypes)
  show ?thesis
  proof (intro conjI impI)
    assume "int (file_size f) = maxFileSize (settings st) * 1024 * 1024"
    then show "f \<in> set (fst (validateFiles st files))"
      using assms(1) t by (simp add: validateFiles_eq)
  next
    assume "int (file_size f) = maxFileSize (settings st) * 1024 * 1024 + 1"
    then show "f \<notin> set (fst (validateFiles st files))"
      by (simp add: validateFiles_eq)
  next
    assume big: "int (file_size f) = maxFileSize (settings st) * 1024 * 1024 + 1"
    have "(file_name f @ '': File too large (max ''
               @ number_to_string (maxFileSize (settings st)) @ ''MB)'', ''error'')
          \<in> set (rejection (maxFileSize (settings st)) (maxFileSize (settings st) * 1024 * 1024) f)"
      using t big by (simp add: rejection_def)
    then show "(file_name f @ '': File too large (max ''
               @ number_to_string (maxFileSize (settings st)) @ ''MB)'', ''error'')
              \<in> set (toasts (snd (validateFiles st files)))"
      using assms(1) by (auto simp: validateFiles_eq)
  qed
qed

theorem validateFiles_size_boundary_witness:
  "sample_jpeg_at_limit \<in> set (fst (validateFiles (constructor Map.empty) [sample_jpeg_at_limit, sample_jpeg_over_limit]))
   \<and> sample_jpeg_over_limit \<notin> set (fst (validateFiles (constructor Map.empty) [sample_jpeg_at_limit, sample_jpeg_over_limit]))
   \<and> (''over.jpg: File too large (max 10MB)'', ''error'')
        \<in> set (toasts (snd (validateFiles (constructor Map.empty) [sample_jpeg_at_limit, sample_jpeg_over_limit])))"
proof -
  let ?st = "constructor Map.empty"
  let ?files = "[sample_jpeg_at_limit, sample_jpeg_over_limit]"
  have m: "maxFileSize (settings ?st) = 10" by (simp add: constructor_def default_settings_def)
  have a: "sample_jpeg_at_limit \<in> set ?files" "sample_jpeg_over_limit \<in> set ?files" by simp_all
  have ty: "file_type sample_jpeg_at_limit \<in> {''image/jpeg'', ''image/jpg'', ''image/png'', ''image/gif'', ''image/webp''}"
    "file_type sample_jpeg_over_limit \<in> {''image/jpeg'', ''image/jpg'', ''image/png'', ''image/gif'', ''image/webp''}"
    by (simp_all add: sample_files)
  have s1: "int (file_size sample_jpeg_at_limit) = maxFileSize (settings ?st) * 1024 * 1024"
    by (simp add: m sample_files)
  have s2: "int (file_size sample_jpeg_over_limit) = maxFileSize (settings ?st) * 1024 * 1024 + 1"
    by (simp add: m sample_files)
  have n: "number_to_string 10 = ''10''" by (simp add: number_to_string_def decimal_10)
  from validateFiles_size_boundary [OF a(1) ty(1), of ?st] s1
  have 1: "sample_jpeg_at_limit \<in> set (fst (validateFiles ?st ?files))" by blast
  from validateFiles_size_boundary [OF a(2) ty(2), of ?st] s2
  have 2: "sample_jpeg_over_limit \<notin> set (fst (validateFiles ?st ?files)) \<and>
     (file_name sample_jpeg_over_limit @ '': File too large (max ''
               @ number_to_string (maxFileSize (settings ?st)) @ ''MB)'', ''error'')
              \<in> set (toasts (snd (validateFiles ?st ?files)))" by blast
  from 2 have 3: "(''over.jpg: File too large (max 10MB)'', ''error'')
        \<in> set (toasts (snd (validateFiles ?st ?files)))"
    by (simp add: m n sample_files)
  from 1 2 3 show ?thesis by blast
qed


section \<open>Claims about statistics, search and export\<close>

text \<open>
  Claim C4. For a non-empty history, the exported text is the header line followed by one
  line per item, in the order of the history, with the columns name, status, confidence,
  date and size in this order: the name between double quotes with its own double quotes
  doubled, the status and the confidence as stored, the date as stored between double
  quotes, and the size in decimal. Nothing inside the date or the numbers is escaped.
\<close>

theorem exportToCSV_columns:
  "analysisHistory st \<noteq> [] \<Longrightarrow>
     snd (exportToCSV st) =
       Some (''Image Name,Status,Confidence (%),Date,File Size (bytes)''
             @ concat (map (\<lambda>item.
                  [CHR 0x0A] @ quoted_with_doubled_quotes (h_name item)
                    @ '','' @ h_status item
                    @ '','' @ (case h_confidence item of None \<Rightarrow> [] | Some c \<Rightarrow> c)
                    @ '','' @ [CHR 0x22] @ (case h_date item of None \<Rightarrow> ''undefined'' | Some d \<Rightarrow> d) @ [CHR 0x22]
                    @ '','' @ decimal (h_size item))
                (analysisHistory st)))"
  by (simp add: exportToCSV_def csvContent_eq csv_row_eq quoted_with_doubled_quotes_def
      replace_dquotes_concat)

theorem exportToCSV_columns_witness:
  "analysisHistory sample_history_app \<noteq> []
   \<and> snd (exportToCSV sample_history_app) =
       Some (''Image Name,Status,Confidence (%),Date,File Size (bytes)'' @ [CHR 0x0A]
             @ [CHR 0x22] @ ''Ad '' @ [CHR 0x22, CHR 0x22] @ ''Big'' @ [CHR 0x22, CHR 0x22]
             @ '' Sign.jpg'' @ [CHR 0x22]
             @ '',authorized,93.4,'' @ [CHR 0x22] @ ''2024-05-01T10:00:00.000Z'' @ [CHR 0x22]
             @ '',2048'')"
proof -
  have ne: "analysisHistory sample_history_app \<noteq> []"
    by (simp add: sample_history_app_def)
  have d: "decimal 2048 = ''2048''" by code_simp
  show ?thesis
    using ne exportToCSV_columns [OF ne]
    by (simp add: sample_history_app_def sample_item_sign_def quoted_with_doubled_quotes_def d)
qed

text \<open>
  Claim C7. For a history of \<open>N\<close> items, \<open>A\<close> of them with status \<^verbatim>\<open>authorized\<close> and \<open>U\<close> with
  status \<^verbatim>\<open>unauthorized\<close>, \<^verbatim>\<open>updateStats\<close> computes the total \<open>N\<close> and the counts \<open>A\<close> and
  \<open>U\<close>, and it does so on every rearrangement of the history.
\<close>

theorem updateStats_counts:
  "mset history' = mset history \<Longrightarrow>
     updateStats history' =
       \<lparr>total = length history,
        authorizedCount = count (image_mset h_status (mset history)) ''authorized'',
        unauthorizedCount = count (image_mset h_status (mset history)) ''unauthorized''\<rparr>"
proof -
  assume "mset history' = mset history"
  then have "updateStats history' = updateStats history" by (rule stats_perm)
  then show ?thesis by (simp add: updateStats_def count_status)
qed

theorem updateStats_counts_witness:
  "mset [sample_item_wall, sample_item_roof, sample_item_sign]
     = mset [sample_item_sign, sample_item_wall, sample_item_roof]
   \<and> updateStats [sample_item_wall, sample_item_roof, sample_item_sign]
     = \<lparr>total = 3, authorizedCount = 2, unauthorizedCount = 1\<rparr>"
proof -
  have p: "mset [sample_item_wall, sample_item_roof, sample_item_sign]
     = mset [sample_item_sign, sample_item_wall, sample_item_roof]"
    by (simp add: add.commute)
  have "updateStats [sample_item_wall, sample_item_roof, sample_item_sign]
     = \<lparr>total = length [sample_item_sign, sample_item_wall, sample_item_roof],
        authorizedCount = count (image_mset h_status (mset [sample_item_sign, sample_item_wall, sample_item_roof])) ''authorized'',
        unauthorizedCount = count (image_mset h_status (mset [sample_item_sign, sample_item_wall, sample_item_roof])) ''unauthorized''\<rparr>"
    using p by (rule updateStats_counts)
  then have "updateStats [sample_item_wall, sample_item_roof, sample_item_sign]
     = \<lparr>total = 3, authorizedCount = 2, unauthorizedCount = 1\<rparr>"
    by (simp add: sample_items)
  with p show ?thesis by blast
qed



end
